theory Spec2Isabelle
  imports Main "HOL-Library.Log_Nat"
begin

section \<open>The optimized load tester: data model\<close>

text \<open>
  The development embeds \<^verbatim>\<open>scripts/load-testing/optimized-test.py\<close>: the class
  \<^verbatim>\<open>OptimizedLoadTester\<close> with \<^verbatim>\<open>make_request\<close> and \<^verbatim>\<open>run_load_test\<close>, and the
  driver \<^verbatim>\<open>main\<close>.

  Python values are kept as the script has them. A decoded JSON document is a \<open>json\<close>
  value, a dictionary built by the script is an association list in key order
  (\<open>pydict\<close>), an exception is a value of \<open>py_exception\<close>, and a function that can
  raise returns \<open>py_exception + 'a\<close> with \<open>Inl\<close> for the raise.

  A Python \<^verbatim>\<open>float\<close> is a rational number. Every floating-point operation is the
  exact result passed through a rounding function \<open>rnd\<close>, which all numeric functions
  take as their first argument: \<open>exact\<close> is arithmetic without rounding, \<open>binary64\<close>
  (defined below) is IEEE 754 double precision, round to nearest, ties to even, with
  the exponent range left unbounded (no overflow, no subnormal numbers).

  A character is a code point below 256.
\<close>

datatype json =
    JNull
  | JBool bool
  | JInt int
  | JFloat rat
  | JStr string
  | JList "json list"
  | JDict "(string \<times> json) list"

datatype pykey = KStr string | KInt int

datatype py_exception =
    KeyError pykey
  | IndexError
  | TypeError
  | AttributeError
  | ValueError
  | ZeroDivisionError
  | StatisticsError
  | ClientError string
  | TimeoutError
  | BodyError string

text \<open>
  \<open>ClientError\<close>, \<open>TimeoutError\<close> and \<open>BodyError\<close> stand for what the HTTP client raises
  (a failed connection, the 30 second timeout, a body that does not decode); all are
  subclasses of \<^verbatim>\<open>Exception\<close>. \<open>PStrExc e\<close> is the string \<^verbatim>\<open>str(e)\<close>, kept symbolic.
\<close>

datatype pyval =
    PInt int
  | PFloat rat
  | PStr string
  | PStrExc py_exception
  | PJson json
  | PDict "(string \<times> pyval) list"

type_synonym pydict = "(string \<times> pyval) list"

type_synonym 'a result = "py_exception + 'a"

definition bind_result :: "'a result \<Rightarrow> ('a \<Rightarrow> 'b result) \<Rightarrow> 'b result" where
  "bind_result m f = (case m of Inl e \<Rightarrow> Inl e | Inr x \<Rightarrow> f x)"

subsection \<open>Subscripts, \<^verbatim>\<open>dict.get\<close>, \<^verbatim>\<open>str.split\<close>\<close>

text \<open>\<^verbatim>\<open>xs[i]\<close> on a list: a negative index counts from the end, out of range raises.\<close>

definition list_index :: "'a list \<Rightarrow> int \<Rightarrow> 'a result" where
  "list_index xs i =
     (if 0 \<le> i \<and> i < int (length xs) then Inr (xs ! nat i)
      else if i < 0 \<and> - int (length xs) \<le> i then Inr (xs ! nat (int (length xs) + i))
      else Inl IndexError)"

text \<open>\<^verbatim>\<open>obj[key]\<close> on a decoded JSON value.\<close>

fun getitem :: "json \<Rightarrow> pykey \<Rightarrow> json result" where
  "getitem (JDict d) k =
     (case k of
        KStr s \<Rightarrow> (case map_of d s of None \<Rightarrow> Inl (KeyError k) | Some v \<Rightarrow> Inr v)
      | KInt i \<Rightarrow> Inl (KeyError k))"
| "getitem (JList xs) k =
     (case k of KInt i \<Rightarrow> list_index xs i | KStr s \<Rightarrow> Inl TypeError)"
| "getitem (JStr s) k =
     (case k of
        KInt i \<Rightarrow> bind_result (list_index s i) (\<lambda>c. Inr (JStr [c]))
      | KStr _ \<Rightarrow> Inl TypeError)"
| "getitem _ k = Inl TypeError"

text \<open>\<^verbatim>\<open>obj.get(key, default)\<close>: only a dictionary has the method.\<close>

fun dict_get :: "json \<Rightarrow> string \<Rightarrow> json \<Rightarrow> json result" where
  "dict_get (JDict d) k dflt = Inr (case map_of d k of None \<Rightarrow> dflt | Some v \<Rightarrow> v)"
| "dict_get _ k dflt = Inl AttributeError"

text \<open>
  \<^verbatim>\<open>str.isspace\<close> on one character: the twelve whitespace code points below 256.
\<close>

definition isspace :: "char \<Rightarrow> bool" where
  "isspace c = (of_char c \<in> {9, 10, 11, 12, 13, 28, 29, 30, 31, 32, 133, 160 :: nat})"

text \<open>
  \<^verbatim>\<open>s.split()\<close> with no separator: runs of whitespace separate the words, and no
  word is empty. \<open>split_scan w s\<close> scans \<open>s\<close> with the word \<open>w\<close> read so far.
\<close>

fun split_scan :: "string \<Rightarrow> string \<Rightarrow> string list" where
  "split_scan w [] = (if w = [] then [] else [w])"
| "split_scan w (c # s) =
     (if isspace c then (if w = [] then split_scan [] s else w # split_scan [] s)
      else split_scan (w @ [c]) s)"

definition py_split :: "string \<Rightarrow> string list" where
  "py_split s = split_scan [] s"

text \<open>\<^verbatim>\<open>obj.split()\<close>: only a string has the method.\<close>

fun str_split :: "json \<Rightarrow> string list result" where
  "str_split (JStr s) = Inr (py_split s)"
| "str_split _ = Inl AttributeError"

subsection \<open>Floating-point operations\<close>

definition exact :: "rat \<Rightarrow> rat" where
  "exact x = x"

definition fsub :: "(rat \<Rightarrow> rat) \<Rightarrow> rat \<Rightarrow> rat \<Rightarrow> rat" where
  "fsub rnd a b = rnd (a - b)"

definition fadd :: "(rat \<Rightarrow> rat) \<Rightarrow> rat \<Rightarrow> rat \<Rightarrow> rat" where
  "fadd rnd a b = rnd (a + b)"

definition fmul :: "(rat \<Rightarrow> rat) \<Rightarrow> rat \<Rightarrow> rat \<Rightarrow> rat" where
  "fmul rnd a b = rnd (a * b)"

text \<open>\<^verbatim>\<open>a / b\<close> on floats raises on a zero divisor.\<close>

definition fdiv :: "(rat \<Rightarrow> rat) \<Rightarrow> rat \<Rightarrow> rat \<Rightarrow> rat result" where
  "fdiv rnd a b = (if b = 0 then Inl ZeroDivisionError else Inr (rnd (a / b)))"

text \<open>\<^verbatim>\<open>a / b\<close> on two \<^verbatim>\<open>int\<close>s: the quotient is rounded once.\<close>

definition int_truediv :: "(rat \<Rightarrow> rat) \<Rightarrow> int \<Rightarrow> int \<Rightarrow> rat result" where
  "int_truediv rnd a b =
     (if b = 0 then Inl ZeroDivisionError else Inr (rnd (of_int a / of_int b)))"

text \<open>
  Rounding to IEEE 754 double precision: 53 significant bits, to nearest, ties to the
  even significand. \<open>ilog2 x\<close> is the exponent \<open>e\<close> with \<open>2 powi e \<le> x < 2 powi (e + 1)\<close>
  of a positive \<open>x\<close>.
\<close>

definition round_half_even :: "rat \<Rightarrow> int" where
  "round_half_even y =
     (let f = \<lfloor>y\<rfloor>; d = y - of_int f
      in if d < 1 / 2 then f else if 1 / 2 < d then f + 1 else if even f then f else f + 1)"

definition ilog2 :: "rat \<Rightarrow> int" where
  "ilog2 x =
     (let (p, q) = quotient_of x; d = bitlen p - bitlen q
      in if 2 powi d \<le> x then d else d - 1)"

definition binary64 :: "rat \<Rightarrow> rat" where
  "binary64 x =
     (if x = 0 then 0
      else let e = ilog2 \<bar>x\<bar> - 52
           in sgn x * of_int (round_half_even (\<bar>x\<bar> / 2 powi e)) * 2 powi e)"

section \<open>\<^verbatim>\<open>make_request\<close>\<close>

text \<open>
  What one request meets: the three readings of \<^verbatim>\<open>time.time()\<close> that
  \<^verbatim>\<open>make_request\<close> can take (before the call, when the response arrives, in the
  exception handler) and what \<^verbatim>\<open>session.post\<close> does. The prompt and the payload only
  reach the service, whose answer is the \<open>reply\<close>. What the handler
  \<^verbatim>\<open>except Exception\<close> does not catch, the cancellation of the task or an interrupt,
  is no part of an exchange.
\<close>

datatype body = Json json | Undecodable py_exception

datatype reply = Response int body | Failed py_exception

record exchange =
  t_start :: rat
  t_end :: rat
  t_fail :: rat
  reply :: reply

text \<open>
  \<^verbatim>\<open>len(result["choices"][0]["message"]["content"].split())\<close>
\<close>

definition tokens_of :: "json \<Rightarrow> int result" where
  "tokens_of result =
     bind_result (getitem result (KStr ''choices'')) (\<lambda>choices.
     bind_result (getitem choices (KInt 0)) (\<lambda>choice.
     bind_result (getitem choice (KStr ''message'')) (\<lambda>message.
     bind_result (getitem message (KStr ''content'')) (\<lambda>content.
     bind_result (str_split content) (\<lambda>ws.
     Inr (int (length ws)))))))"

text \<open>The body of the \<^verbatim>\<open>try\<close> block: what it returns, or the exception it raises.\<close>

definition try_request :: "(rat \<Rightarrow> rat) \<Rightarrow> exchange \<Rightarrow> int \<Rightarrow> pydict result" where
  "try_request rnd ex request_id =
     (let start_time = t_start ex in
      case reply ex of
        Failed e \<Rightarrow> Inl e
      | Response status b \<Rightarrow>
          (let end_time = t_end ex;
               latency = fmul rnd (fsub rnd end_time start_time) 1000
           in if status = 200 then
                bind_result (case b of Json j \<Rightarrow> Inr j | Undecodable e \<Rightarrow> Inl e) (\<lambda>result.
                bind_result (tokens_of result) (\<lambda>tokens.
                bind_result (dict_get result ''model'' (JStr ''unknown'')) (\<lambda>model.
                Inr [(''request_id'', PInt request_id),
                     (''status'', PStr ''success''),
                     (''latency_ms'', PFloat latency),
                     (''tokens_generated'', PInt tokens),
                     (''timestamp'', PFloat start_time),
                     (''model'', PJson model)])))
              else
                Inr [(''request_id'', PInt request_id),
                     (''status'', PStr ''error''),
                     (''latency_ms'', PFloat latency),
                     (''error_code'', PInt status),
                     (''timestamp'', PFloat start_time)]))"

definition make_request :: "(rat \<Rightarrow> rat) \<Rightarrow> exchange \<Rightarrow> int \<Rightarrow> pydict" where
  "make_request rnd ex request_id =
     (let start_time = t_start ex in
      case try_request rnd ex request_id of
        Inr d \<Rightarrow> d
      | Inl e \<Rightarrow>
          (let end_time = t_fail ex;
               latency = fmul rnd (fsub rnd end_time start_time) 1000
           in [(''request_id'', PInt request_id),
               (''status'', PStr ''error''),
               (''latency_ms'', PFloat latency),
               (''error'', PStrExc e),
               (''timestamp'', PFloat start_time)]))"

section \<open>The \<^verbatim>\<open>statistics\<close> module\<close>

text \<open>
  The functions of Python's standard library that \<^verbatim>\<open>run_load_test\<close> calls, as
  CPython 3.8 to 3.12 define them. \<^verbatim>\<open>mean\<close> sums exactly and rounds the quotient
  once.
\<close>

definition statistics_mean :: "(rat \<Rightarrow> rat) \<Rightarrow> rat list \<Rightarrow> rat result" where
  "statistics_mean rnd data =
     (let n = length data
      in if n < 1 then Inl StatisticsError
         else Inr (rnd (sum_list data / of_nat n)))"

text \<open>On \<^verbatim>\<open>int\<close>s the mean is an \<^verbatim>\<open>int\<close> when it is whole, else a \<^verbatim>\<open>float\<close>.\<close>

definition statistics_mean_int :: "(rat \<Rightarrow> rat) \<Rightarrow> int list \<Rightarrow> pyval result" where
  "statistics_mean_int rnd data =
     (let n = length data; total = sum_list data
      in if n < 1 then Inl StatisticsError
         else if int n dvd total then Inr (PInt (total div int n))
         else Inr (PFloat (rnd (of_int total / of_nat n))))"

definition statistics_median :: "(rat \<Rightarrow> rat) \<Rightarrow> rat list \<Rightarrow> rat result" where
  "statistics_median rnd data0 =
     (let data = sort data0; n = length data
      in if n = 0 then Inl StatisticsError
         else if n mod 2 = 1 then Inr (data ! (n div 2))
         else (let i = n div 2
               in Inr (rnd (fadd rnd (data ! (i - 1)) (data ! i) / 2))))"

text \<open>
  One cut point of \<^verbatim>\<open>quantiles(data, n=n)\<close>, method \<^verbatim>\<open>'exclusive'\<close>; \<open>data\<close> is sorted
  and has \<open>ld\<close> elements, \<open>m = ld + 1\<close>. The clamp keeps \<open>j - 1\<close> and \<open>j\<close> inside the list.
\<close>

definition cut_point :: "(rat \<Rightarrow> rat) \<Rightarrow> rat list \<Rightarrow> int \<Rightarrow> int \<Rightarrow> rat" where
  "cut_point rnd data n i =
     (let ld = int (length data);
          m = ld + 1;
          j0 = i * m div n;
          j = (if j0 < 1 then 1 else if j0 > ld - 1 then ld - 1 else j0);
          delta = i * m - j * n
      in rnd (fadd rnd (fmul rnd (data ! nat (j - 1)) (of_int (n - delta)))
                       (fmul rnd (data ! nat j) (of_int delta))
              / of_int n))"

definition quantiles :: "(rat \<Rightarrow> rat) \<Rightarrow> rat list \<Rightarrow> int \<Rightarrow> rat list result" where
  "quantiles rnd data0 n =
     (if n < 1 then Inl StatisticsError
      else let data = sort data0; ld = length data
           in if ld < 2 then Inl StatisticsError
              else Inr (map (cut_point rnd data n) [1..n - 1]))"

text \<open>The builtins \<^verbatim>\<open>min\<close> and \<^verbatim>\<open>max\<close> raise on an empty list.\<close>

definition py_min :: "rat list \<Rightarrow> rat result" where
  "py_min xs = (case xs of [] \<Rightarrow> Inl ValueError | x # ys \<Rightarrow> Inr (fold min ys x))"

definition py_max :: "rat list \<Rightarrow> rat result" where
  "py_max xs = (case xs of [] \<Rightarrow> Inl ValueError | x # ys \<Rightarrow> Inr (fold max ys x))"

section \<open>\<^verbatim>\<open>run_load_test\<close>\<close>

text \<open>\<^verbatim>\<open>d[key]\<close> on a dictionary of the script.\<close>

definition dict_item :: "pydict \<Rightarrow> string \<Rightarrow> pyval result" where
  "dict_item d k = (case map_of d k of None \<Rightarrow> Inl (KeyError (KStr k)) | Some v \<Rightarrow> Inr v)"

text \<open>
  The numeric functions above take numbers; a value of another type would make them
  raise \<^verbatim>\<open>TypeError\<close>.
\<close>

fun as_float :: "pyval \<Rightarrow> rat result" where
  "as_float (PFloat x) = Inr x"
| "as_float (PInt i) = Inr (of_int i)"
| "as_float _ = Inl TypeError"

fun as_int :: "pyval \<Rightarrow> int result" where
  "as_int (PInt i) = Inr i"
| "as_int _ = Inl TypeError"

text \<open>A list comprehension whose element expression can raise.\<close>

fun map_result :: "('a \<Rightarrow> 'b result) \<Rightarrow> 'a list \<Rightarrow> 'b list result" where
  "map_result f [] = Inr []"
| "map_result f (x # xs) =
     bind_result (f x) (\<lambda>y. bind_result (map_result f xs) (\<lambda>ys. Inr (y # ys)))"

text \<open>
  \<^verbatim>\<open>[r for r in results if isinstance(r, dict) and r.get("status") == st]\<close>: an entry
  of \<^verbatim>\<open>results\<close> is a dictionary (\<open>Inr\<close>) or, as \<^verbatim>\<open>gather\<close> is called with
  \<^verbatim>\<open>return_exceptions=True\<close>, an exception object (\<open>Inl\<close>).
\<close>

definition with_status :: "string \<Rightarrow> pydict result list \<Rightarrow> pydict list" where
  "with_status st results =
     List.map_filter
       (\<lambda>r. case r of
               Inr d \<Rightarrow> if map_of d ''status'' = Some (PStr st) then Some d else None
             | Inl e \<Rightarrow> None)
       results"

text \<open>
  \<^verbatim>\<open>bounded_request\<close> and the task list. \<open>env i\<close> is what request \<open>i\<close> meets. The
  semaphore decides when a task runs, not what it returns; the scheduling is the
  subject of the next section.
\<close>

definition bounded_request :: "(rat \<Rightarrow> rat) \<Rightarrow> (int \<Rightarrow> exchange) \<Rightarrow> int \<Rightarrow> pydict result" where
  "bounded_request rnd env request_id = Inr (make_request rnd (env request_id) request_id)"

definition gather :: "(rat \<Rightarrow> rat) \<Rightarrow> (int \<Rightarrow> exchange) \<Rightarrow> int \<Rightarrow> pydict result list" where
  "gather rnd env num_requests = map (bounded_request rnd env) [0..num_requests - 1]"

text \<open>
  The two nested dictionaries of the summary, their entries evaluated in the order of
  the source.
\<close>

definition latency_stats :: "(rat \<Rightarrow> rat) \<Rightarrow> rat list \<Rightarrow> pydict result" where
  "latency_stats rnd latencies =
     bind_result (statistics_mean rnd latencies) (\<lambda>mean_ms.
     bind_result (statistics_median rnd latencies) (\<lambda>median_ms.
     bind_result (bind_result (quantiles rnd latencies 20) (\<lambda>q. list_index q 18)) (\<lambda>p95_ms.
     bind_result (bind_result (quantiles rnd latencies 100) (\<lambda>q. list_index q 98)) (\<lambda>p99_ms.
     bind_result (py_min latencies) (\<lambda>min_ms.
     bind_result (py_max latencies) (\<lambda>max_ms.
     Inr [(''mean_ms'', PFloat mean_ms),
          (''median_ms'', PFloat median_ms),
          (''p95_ms'', PFloat p95_ms),
          (''p99_ms'', PFloat p99_ms),
          (''min_ms'', PFloat min_ms),
          (''max_ms'', PFloat max_ms)]))))))"

definition tokens_stats :: "(rat \<Rightarrow> rat) \<Rightarrow> int list \<Rightarrow> pydict result" where
  "tokens_stats rnd tokens_generated =
     bind_result (statistics_mean_int rnd tokens_generated) (\<lambda>mean_tokens.
     Inr [(''mean_tokens'', mean_tokens),
          (''total_tokens'', PInt (sum_list tokens_generated))])"

text \<open>
  The part of \<^verbatim>\<open>run_load_test\<close> after \<^verbatim>\<open>gather\<close>: \<open>start_time\<close> and \<open>end_time\<close> are the
  readings of the clock around it. The comprehensions that collect the latencies and
  the token counts check the type of each element, where the source leaves that to the
  functions of \<^verbatim>\<open>statistics\<close>.
\<close>

definition process_results ::
  "(rat \<Rightarrow> rat) \<Rightarrow> int \<Rightarrow> int \<Rightarrow> pydict result list \<Rightarrow> rat \<Rightarrow> rat \<Rightarrow> pydict result" where
  "process_results rnd num_requests concurrency results start_time end_time =
     (let successful_requests = with_status ''success'' results;
          failed_requests = with_status ''error'' results
      in if successful_requests \<noteq> [] then
           bind_result (map_result (\<lambda>r. bind_result (dict_item r ''latency_ms'') as_float)
                          successful_requests) (\<lambda>latencies.
           bind_result (map_result (\<lambda>r. bind_result (dict_item r ''tokens_generated'') as_int)
                          successful_requests) (\<lambda>tokens_generated.
           bind_result (int_truediv rnd (int (length successful_requests)) num_requests)
             (\<lambda>success_rate.
           bind_result (fdiv rnd (of_nat (length successful_requests))
                          (fsub rnd end_time start_time)) (\<lambda>throughput_rps.
           bind_result (latency_stats rnd latencies) (\<lambda>latency_block.
           bind_result (tokens_stats rnd tokens_generated) (\<lambda>tokens_block.
           Inr [(''total_requests'', PInt num_requests),
                (''successful_requests'', PInt (int (length successful_requests))),
                (''failed_requests'', PInt (int (length failed_requests))),
                (''success_rate'', PFloat success_rate),
                (''total_time_seconds'', PFloat (fsub rnd end_time start_time)),
                (''throughput_rps'', PFloat throughput_rps),
                (''latency_stats'', PDict latency_block),
                (''tokens_stats'', PDict tokens_block),
                (''concurrency'', PInt concurrency),
                (''configuration'', PStr ''optimized-vllm'')]))))))
         else
           Inr [(''total_requests'', PInt num_requests),
                (''successful_requests'', PInt 0),
                (''failed_requests'', PInt (int (length failed_requests))),
                (''success_rate'', PInt 0),
                (''error'', PStr ''No successful requests''),
                (''configuration'', PStr ''optimized-vllm'')])"

text \<open>
  \<^verbatim>\<open>run_load_test\<close>. \<^verbatim>\<open>asyncio.Semaphore\<close> refuses a negative value with
  \<^verbatim>\<open>ValueError\<close>. With the value 0 no task ever enters, so \<^verbatim>\<open>gather\<close> never
  returns when there is a task: not returning is \<open>None\<close>.
\<close>

definition run_load_test ::
  "(rat \<Rightarrow> rat) \<Rightarrow> int \<Rightarrow> int \<Rightarrow> (int \<Rightarrow> exchange) \<Rightarrow> rat \<Rightarrow> rat \<Rightarrow> pydict result option" where
  "run_load_test rnd num_requests concurrency env start_time end_time =
     (if concurrency < 0 then Some (Inl ValueError)
      else if concurrency = 0 \<and> 0 < num_requests then None
      else Some (process_results rnd num_requests concurrency
                   (gather rnd env num_requests) start_time end_time))"

section \<open>The tasks under the semaphore\<close>

text \<open>
  \<^verbatim>\<open>gather\<close> runs the tasks \<^verbatim>\<open>bounded_request(i)\<close> interleaved. A task waits at
  \<^verbatim>\<open>async with semaphore\<close>, holds the semaphore while \<^verbatim>\<open>make_request\<close> is open, and
  is done with its result once the block is left. The semaphore is its counter:
  entering needs a positive counter and decrements it, leaving increments it.
\<close>

datatype phase = Waiting | InFlight | Done "pydict result"

record sched =
  sem_value :: nat
  phases :: "phase list"

definition sched_init :: "int \<Rightarrow> int \<Rightarrow> sched" where
  "sched_init num_requests concurrency =
     \<lparr>sem_value = nat concurrency, phases = replicate (nat num_requests) Waiting\<rparr>"

inductive step :: "(rat \<Rightarrow> rat) \<Rightarrow> (int \<Rightarrow> exchange) \<Rightarrow> sched \<Rightarrow> sched \<Rightarrow> bool"
  for rnd :: "rat \<Rightarrow> rat" and env :: "int \<Rightarrow> exchange" where
  acquire:
    "i < length (phases s) \<Longrightarrow> phases s ! i = Waiting \<Longrightarrow> 0 < sem_value s \<Longrightarrow>
     step rnd env s
       (s\<lparr>sem_value := sem_value s - 1, phases := (phases s)[i := InFlight]\<rparr>)"
| release:
    "i < length (phases s) \<Longrightarrow> phases s ! i = InFlight \<Longrightarrow>
     step rnd env s
       (s\<lparr>sem_value := sem_value s + 1,
          phases := (phases s)[i := Done (bounded_request rnd env (int i))]\<rparr>)"

text \<open>
  The states of a run: \<^verbatim>\<open>asyncio.Semaphore(concurrency)\<close> exists only for a value
  that is not negative.
\<close>

inductive reachable ::
  "(rat \<Rightarrow> rat) \<Rightarrow> (int \<Rightarrow> exchange) \<Rightarrow> int \<Rightarrow> int \<Rightarrow> sched \<Rightarrow> bool"
  for rnd :: "rat \<Rightarrow> rat" and env :: "int \<Rightarrow> exchange"
    and num_requests :: int and concurrency :: int where
  start: "0 \<le> concurrency \<Longrightarrow> reachable rnd env num_requests concurrency
            (sched_init num_requests concurrency)"
| next_step: "reachable rnd env num_requests concurrency s \<Longrightarrow> step rnd env s s' \<Longrightarrow>
     reachable rnd env num_requests concurrency s'"

text \<open>The number of tasks inside \<^verbatim>\<open>make_request\<close>.\<close>

definition in_flight :: "sched \<Rightarrow> nat" where
  "in_flight s = length (filter (\<lambda>p. p = InFlight) (phases s))"

text \<open>
  What \<^verbatim>\<open>await asyncio.gather(*tasks, return_exceptions=True)\<close> returns: the results
  in the order of the tasks, once every task is done.
\<close>

fun result_of :: "phase \<Rightarrow> pydict result option" where
  "result_of (Done r) = Some r"
| "result_of _ = None"

definition gathered :: "sched \<Rightarrow> pydict result list option" where
  "gathered s = those (map result_of (phases s))"

section \<open>\<^verbatim>\<open>main\<close>\<close>





section \<open>Notions the properties are stated with\<close>

text \<open>
  The text of the answer: the string at \<^verbatim>\<open>choices[0].message.content\<close> of a response
  of the expected shape.
\<close>

fun message_content :: "json \<Rightarrow> string option" where
  "message_content (JDict d) =
     (case map_of d ''choices'' of
        Some (JList (JDict c # rest)) \<Rightarrow>
          (case map_of c ''message'' of
             Some (JDict m) \<Rightarrow>
               (case map_of m ''content'' of Some (JStr s) \<Rightarrow> Some s | _ \<Rightarrow> None)
           | _ \<Rightarrow> None)
      | _ \<Rightarrow> None)"
| "message_content _ = None"

text \<open>
  The number of whitespace-delimited words of a text: the positions where a word
  begins, that is a character that is not whitespace, at the start of the text or
  right after a whitespace character.
\<close>

definition word_count :: "string \<Rightarrow> nat" where
  "word_count s =
     length (filter (\<lambda>i. \<not> isspace (s ! i) \<and> (i = 0 \<or> isspace (s ! (i - 1)))) [0..<length s])"

text \<open>The same count by one pass; \<open>b\<close> tells whether a word may begin at the head.\<close>

fun starts :: "bool \<Rightarrow> string \<Rightarrow> nat" where
  "starts b [] = 0"
| "starts b (c # s) = (if b \<and> \<not> isspace c then 1 else 0) + starts (isspace c) s"

text \<open>
  A request succeeds when the service answers 200 with a body that decodes to a
  response of the expected shape. \<open>content_of\<close> and \<open>model_of\<close> read such a response.
\<close>

definition succeeded :: "exchange \<Rightarrow> bool" where
  "succeeded ex =
     (case reply ex of
        Response status (Json j) \<Rightarrow> status = 200 \<and> message_content j \<noteq> None
      | _ \<Rightarrow> False)"

definition content_of :: "exchange \<Rightarrow> string" where
  "content_of ex =
     (case reply ex of
        Response status (Json j) \<Rightarrow> (case message_content j of Some s \<Rightarrow> s | None \<Rightarrow> [])
      | _ \<Rightarrow> [])"

definition model_of :: "exchange \<Rightarrow> json" where
  "model_of ex =
     (case reply ex of
        Response status (Json (JDict d)) \<Rightarrow>
          (case map_of d ''model'' of Some v \<Rightarrow> v | None \<Rightarrow> JStr ''unknown'')
      | _ \<Rightarrow> JStr ''unknown'')"

text \<open>
  The milliseconds between two readings of the clock, and the reading that ends a
  failed request: the arrival of the response when its status is not 200, the entry
  of the exception handler otherwise.
\<close>

definition elapsed_ms :: "(rat \<Rightarrow> rat) \<Rightarrow> rat \<Rightarrow> rat \<Rightarrow> rat" where
  "elapsed_ms rnd t0 t1 = rnd (rnd (t1 - t0) * 1000)"

definition failure_time :: "exchange \<Rightarrow> rat" where
  "failure_time ex =
     (case reply ex of
        Response status b \<Rightarrow> if status = 200 then t_fail ex else t_end ex
      | Failed e \<Rightarrow> t_fail ex)"

text \<open>The requests of a run by outcome, and what the successful ones measured.\<close>

definition successful_ids :: "int \<Rightarrow> (int \<Rightarrow> exchange) \<Rightarrow> int list" where
  "successful_ids num_requests env = filter (\<lambda>i. succeeded (env i)) [0..num_requests - 1]"

definition failed_ids :: "int \<Rightarrow> (int \<Rightarrow> exchange) \<Rightarrow> int list" where
  "failed_ids num_requests env = filter (\<lambda>i. \<not> succeeded (env i)) [0..num_requests - 1]"

definition successful_latencies :: "(rat \<Rightarrow> rat) \<Rightarrow> int \<Rightarrow> (int \<Rightarrow> exchange) \<Rightarrow> rat list" where
  "successful_latencies rnd num_requests env =
     map (\<lambda>i. elapsed_ms rnd (t_start (env i)) (t_end (env i))) (successful_ids num_requests env)"

definition successful_tokens :: "int \<Rightarrow> (int \<Rightarrow> exchange) \<Rightarrow> int list" where
  "successful_tokens num_requests env =
     map (\<lambda>i. int (word_count (content_of (env i)))) (successful_ids num_requests env)"

text \<open>The summary of a run without a successful request.\<close>

definition zero_summary :: "int \<Rightarrow> int \<Rightarrow> pydict" where
  "zero_summary num_requests failed =
     [(''total_requests'', PInt num_requests),
      (''successful_requests'', PInt 0),
      (''failed_requests'', PInt failed),
      (''success_rate'', PInt 0),
      (''error'', PStr ''No successful requests''),
      (''configuration'', PStr ''optimized-vllm'')]"



text \<open>
  The state in which the first \<open>k\<close> tasks are done, no task is inside and the others
  wait.
\<close>

definition served :: "(rat \<Rightarrow> rat) \<Rightarrow> (int \<Rightarrow> exchange) \<Rightarrow> int \<Rightarrow> int \<Rightarrow> nat \<Rightarrow> sched" where
  "served rnd env n c k =
     \<lparr>sem_value = nat c,
      phases = map (\<lambda>i. Done (bounded_request rnd env (int i))) [0..<k]
                 @ replicate (nat n - k) Waiting\<rparr>"

text \<open>Exchanges for the examples: a request that runs into the timeout.\<close>

definition timed_out :: exchange where
  "timed_out = \<lparr>t_start = 0, t_end = 30, t_fail = 30, reply = Failed TimeoutError\<rparr>"

text \<open>
  A request answered with a well-formed response, one refused with status 500, one
  whose body does not decode and one whose body lacks the expected fields.
\<close>

definition chat_response :: "string \<Rightarrow> json" where
  "chat_response text =
     JDict [(''choices'',
             JList [JDict [(''message'',
                            JDict [(''role'', JStr ''assistant''), (''content'', JStr text)])]]),
            (''model'', JStr ''llama'')]"

definition answered :: "rat \<Rightarrow> rat \<Rightarrow> string \<Rightarrow> exchange" where
  "answered t0 t1 text =
     \<lparr>t_start = t0, t_end = t1, t_fail = t1, reply = Response 200 (Json (chat_response text))\<rparr>"

definition refused :: exchange where
  "refused = \<lparr>t_start = 0, t_end = 3 / 100, t_fail = 3 / 100,
              reply = Response 500 (Undecodable (BodyError ''''))\<rparr>"



text \<open>
  A run of three requests of which the second is refused, and the summary that
  \<open>run_load_test\<close> returns for it in exact arithmetic, between the clock readings 0
  and 1.
\<close>

definition mixed_env :: "int \<Rightarrow> exchange" where
  "mixed_env i =
     (if i = 0 then answered 0 (1 / 100) ''a b  c''
      else if i = 1 then refused
      else answered 0 (5 / 100) ''hello world'')"



section \<open>The scheduler keeps the concurrency bound\<close>

lemma filter_update_count:
  "i < length xs \<Longrightarrow>
   length (filter P (xs[i := y])) + (if P (xs ! i) then 1 else 0)
     = length (filter P xs) + (if P y then 1 else 0)"
proof (induction xs arbitrary: i)
  case Nil
  then show ?case by simp
next
  case (Cons x xs)
  show ?case
  proof (cases i)
    case 0
    then show ?thesis by simp
  next
    case (Suc k)
    with Cons.prems have "k < length xs" by simp
    from Cons.IH [OF this] Suc show ?thesis by simp
  qed
qed

lemma in_flight_init: "in_flight (sched_init n c) = 0"
  by (simp add: in_flight_def sched_init_def)

lemma step_sem_balance:
  assumes "step rnd env s s'"
  shows "sem_value s' + in_flight s' = sem_value s + in_flight s"
  using assms
proof (cases rule: step.cases)
  case (acquire i)
  from filter_update_count [OF acquire(2), of "\<lambda>p. p = InFlight" InFlight] acquire
  show ?thesis by (simp add: in_flight_def)
next
  case (release i)
  from filter_update_count [OF release(2), of "\<lambda>p. p = InFlight" "Done (bounded_request rnd env (int i))"] release
  show ?thesis by (simp add: in_flight_def)
qed

lemma reachable_sem_balance:
  "reachable rnd env n c s \<Longrightarrow> sem_value s + in_flight s = nat c"
proof (induction rule: reachable.induct)
  case start
  then show ?case by (simp add: in_flight_init) (simp add: sched_init_def)
next
  case (next_step s s')
  then show ?case using step_sem_balance by metis
qed

lemma reachable_nonneg: "reachable rnd env n c s \<Longrightarrow> 0 \<le> c"
  by (induction rule: reachable.induct) auto

text \<open>
  C3. In every state of a run, the number of tasks inside \<^verbatim>\<open>make_request\<close>, that is
  holding the semaphore with their network call open, is at most \<^verbatim>\<open>concurrency\<close>.
\<close>

theorem in_flight_bounded:
  assumes "reachable rnd env num_requests concurrency s"
  shows "int (in_flight s) \<le> concurrency"
  using reachable_sem_balance [OF assms] reachable_nonneg [OF assms] by linarith

theorem in_flight_bounded_witness:
  "reachable exact (\<lambda>i. timed_out) 3 2 \<lparr>sem_value = 0, phases = [InFlight, InFlight, Waiting]\<rparr>
   \<and> in_flight \<lparr>sem_value = 0, phases = [InFlight, InFlight, Waiting]\<rparr> = 2
   \<and> int (in_flight \<lparr>sem_value = 0, phases = [InFlight, InFlight, Waiting]\<rparr>) \<le> 2"
proof -
  let ?r = "reachable exact (\<lambda>i. timed_out) 3 2"
  let ?st = "step exact (\<lambda>i. timed_out)"
  let ?s0 = "\<lparr>sem_value = 2, phases = [Waiting, Waiting, Waiting]\<rparr>"
  let ?s1 = "\<lparr>sem_value = 1, phases = [InFlight, Waiting, Waiting]\<rparr>"
  let ?s2 = "\<lparr>sem_value = 0, phases = [InFlight, InFlight, Waiting]\<rparr>"
  have "sched_init 3 2 = ?s0"
    by (simp add: sched_init_def numeral_3_eq_3)
  with reachable.start [of 2 exact "\<lambda>i. timed_out" 3] have r0: "?r ?s0" by simp
  have "?st ?s0 ?s1" using step.acquire [of 0 ?s0 exact "\<lambda>i. timed_out"] by simp
  with r0 have r1: "?r ?s1" by (rule reachable.next_step)
  have "?st ?s1 ?s2" using step.acquire [of 1 ?s1 exact "\<lambda>i. timed_out"] by simp
  with r1 have r2: "?r ?s2" by (rule reachable.next_step)
  from in_flight_bounded [OF r2] r2 show ?thesis by (simp add: in_flight_def)
qed

section \<open>What \<^verbatim>\<open>make_request\<close> returns\<close>

lemma split_scan_length:
  "length (split_scan w s) = (if w = [] then 0 else 1) + starts (w = []) s"
  by (induction s arbitrary: w) auto

lemma starts_filter:
  "starts b s =
     length (filter (\<lambda>i. \<not> isspace (s ! i) \<and> (if i = 0 then b else isspace (s ! (i - 1))))
               [0..<length s])"
proof (induction s arbitrary: b)
  case Nil
  show ?case by simp
next
  case (Cons c s)
  let ?P = "\<lambda>i. \<not> isspace ((c # s) ! i) \<and> (if i = 0 then b else isspace ((c # s) ! (i - 1)))"
  let ?Q = "\<lambda>i. \<not> isspace (s ! i) \<and> (if i = 0 then isspace c else isspace (s ! (i - 1)))"
  have upt: "[0..<length (c # s)] = 0 # map Suc [0..<length s]"
    by (simp add: upt_conv_Cons map_Suc_upt del: upt_Suc)
  have shift: "?P (Suc i) = ?Q i" for i
    by (simp add: nth_Cons')
  have "length (filter ?P (map Suc [0..<length s])) = length (filter (?P \<circ> Suc) [0..<length s])"
    by (simp only: filter_map length_map)
  also have "?P \<circ> Suc = ?Q"
    using shift by (simp only: comp_def)
  finally have tail: "length (filter ?P (map Suc [0..<length s])) = starts (isspace c) s"
    by (simp only: Cons.IH)
  have "length (filter ?P [0..<length (c # s)])
      = (if ?P 0 then 1 else 0) + length (filter ?P (map Suc [0..<length s]))"
    by (simp only: upt filter.simps) simp
  also have "\<dots> = starts b (c # s)"
    by (simp only: tail) simp
  finally show ?case by simp
qed

lemma py_split_length: "length (py_split s) = word_count s"
proof -
  have "(\<lambda>i. \<not> isspace (s ! i) \<and> (if i = 0 then True else isspace (s ! (i - 1))))
      = (\<lambda>i. \<not> isspace (s ! i) \<and> (i = 0 \<or> isspace (s ! (i - 1))))"
    by auto
  then show ?thesis
    by (simp add: py_split_def split_scan_length starts_filter word_count_def)
qed

lemma list_index_0: "list_index xs 0 = (case xs of [] \<Rightarrow> Inl IndexError | x # _ \<Rightarrow> Inr x)"
  by (cases xs) (simp_all add: list_index_def)

lemma tokens_of_iff:
  "tokens_of j = Inr k \<longleftrightarrow> (\<exists>s. message_content j = Some s \<and> k = int (length (py_split s)))"
proof (cases j)
  case (JDict d)
  show ?thesis
  proof (cases "map_of d ''choices''")
    case None
    with JDict show ?thesis by (simp add: tokens_of_def bind_result_def)
  next
    case (Some choices)
    show ?thesis
    proof (cases "getitem choices (KInt 0)")
      case (Inl e)
      then have "\<not> (\<exists>c rest. choices = JList (JDict c # rest))"
        by (auto simp: list_index_0)
      with JDict Some Inl show ?thesis
        by (auto simp: tokens_of_def bind_result_def split: json.splits list.splits)
    next
      case (Inr choice)
      show ?thesis
      proof (cases choice)
        case c: (JDict c)
        with Inr have ch: "\<exists>rest. choices = JList (JDict c # rest)"
          by (cases choices) (auto simp: list_index_0 bind_result_def split: list.splits)
        show ?thesis
        proof (cases "map_of c ''message''")
          case None
          with JDict Some Inr c ch show ?thesis
            by (auto simp: tokens_of_def bind_result_def)
        next
          case m: (Some message)
          show ?thesis
          proof (cases message)
            case mm: (JDict m')
            show ?thesis
            proof (cases "map_of m' ''content''")
              case None
              with JDict Some Inr c ch m mm show ?thesis
                by (auto simp: tokens_of_def bind_result_def)
            next
              case cc: (Some content)
              with JDict Some Inr c ch m mm show ?thesis
                by (cases content) (auto simp: tokens_of_def bind_result_def)
            qed
          qed (use JDict Some Inr c ch m in \<open>auto simp: tokens_of_def bind_result_def\<close>)
        qed
      next
        case JStr
        with Inr have "\<not> (\<exists>c rest. choices = JList (JDict c # rest))"
          by (auto simp: list_index_0)
        with JDict Some Inr JStr show ?thesis
          by (auto simp: tokens_of_def bind_result_def split: json.splits list.splits)
      next
        case JList
        with Inr have "\<not> (\<exists>c rest. choices = JList (JDict c # rest))"
          by (auto simp: list_index_0)
        with JDict Some Inr JList show ?thesis
          by (auto simp: tokens_of_def bind_result_def split: json.splits list.splits)
      qed (use JDict Some Inr in \<open>auto simp: tokens_of_def bind_result_def list_index_0 split: json.splits list.splits\<close>)
    qed
  qed
qed (simp_all add: tokens_of_def bind_result_def)

lemma message_content_JDict: "message_content j = Some s \<Longrightarrow> \<exists>d. j = JDict d"
  by (cases j) simp_all

lemma tokens_of_Inl: "message_content j = None \<Longrightarrow> \<exists>e. tokens_of j = Inl e"
  using tokens_of_iff [of j] by (cases "tokens_of j") auto

lemma make_request_succeeded:
  assumes "succeeded ex"
  shows "make_request rnd ex i =
     [(''request_id'', PInt i),
      (''status'', PStr ''success''),
      (''latency_ms'', PFloat (elapsed_ms rnd (t_start ex) (t_end ex))),
      (''tokens_generated'', PInt (int (word_count (content_of ex)))),
      (''timestamp'', PFloat (t_start ex)),
      (''model'', PJson (model_of ex))]"
proof -
  from assms obtain j s where r: "reply ex = Response 200 (Json j)" and s: "message_content j = Some s"
    by (auto simp: succeeded_def split: reply.splits body.splits)
  from s obtain d where d: "j = JDict d" using message_content_JDict by blast
  from s have "tokens_of j = Inr (int (word_count s))"
    using tokens_of_iff [of j "int (word_count s)"] by (simp add: py_split_length)
  with r s d show ?thesis
    by (simp add: Let_def make_request_def try_request_def bind_result_def elapsed_ms_def fmul_def
        fsub_def content_of_def model_of_def)
qed

lemma make_request_failed:
  assumes "\<not> succeeded ex"
  shows "\<exists>cause. make_request rnd ex i =
     [(''request_id'', PInt i),
      (''status'', PStr ''error''),
      (''latency_ms'', PFloat (elapsed_ms rnd (t_start ex) (failure_time ex))),
      cause,
      (''timestamp'', PFloat (t_start ex))]
    \<and> ((\<exists>status b. reply ex = Response status b \<and> status \<noteq> 200
            \<and> cause = (''error_code'', PInt status))
       \<or> (\<exists>e. cause = (''error'', PStrExc e)))"
proof (cases "reply ex")
  case (Failed e)
  then show ?thesis
    by (simp add: Let_def make_request_def try_request_def elapsed_ms_def fmul_def fsub_def
        failure_time_def)
next
  case (Response status b)
  show ?thesis
  proof (cases "status = 200")
    case False
    with Response show ?thesis
      by (simp add: Let_def make_request_def try_request_def elapsed_ms_def fmul_def fsub_def
          failure_time_def)
  next
    case True
    show ?thesis
    proof (cases b)
      case (Undecodable e)
      with Response True show ?thesis
        by (simp add: Let_def make_request_def try_request_def elapsed_ms_def fmul_def fsub_def
            failure_time_def bind_result_def)
    next
      case (Json j)
      with Response True assms have "message_content j = None"
        by (simp add: succeeded_def)
      then obtain e where "tokens_of j = Inl e" using tokens_of_Inl by blast
      with Response True Json show ?thesis
        by (simp add: Let_def make_request_def try_request_def elapsed_ms_def fmul_def fsub_def
            failure_time_def bind_result_def)
    qed
  qed
qed

lemma make_request_status:
  "map_of (make_request rnd ex i) ''status'' =
     Some (PStr (if succeeded ex then ''success'' else ''error''))"
proof (cases "succeeded ex")
  case True
  then show ?thesis by (simp add: make_request_succeeded)
next
  case False
  from make_request_failed [OF False, of rnd i] obtain cause where
    "make_request rnd ex i =
     [(''request_id'', PInt i), (''status'', PStr ''error''),
      (''latency_ms'', PFloat (elapsed_ms rnd (t_start ex) (failure_time ex))),
      cause, (''timestamp'', PFloat (t_start ex))]" by blast
  with False show ?thesis by simp
qed


section \<open>The gathered results\<close>





lemma upto_as_upt: "[0..n - 1] = map int [0..<nat n]"
proof (rule nth_equalityI)
  show "length [0..n - 1] = length (map int [0..<nat n])" by simp
next
  fix i assume "i < length [0..n - 1]"
  then show "[0..n - 1] ! i = map int [0..<nat n] ! i" by simp
qed


lemma served_reachable:
  assumes "0 < c" and "k \<le> nat n"
  shows "reachable rnd env n c (served rnd env n c k)"
  using assms(2)
proof (induction k)
  case 0
  have "served rnd env n c 0 = sched_init n c"
    by (simp add: served_def sched_init_def)
  with assms(1) reachable.start [of c rnd env n] show ?case by simp
next
  case (Suc k)
  let ?s = "served rnd env n c k"
  let ?done = "map (\<lambda>i. Done (bounded_request rnd env (int i))) [0..<k]"
  from Suc have reach: "reachable rnd env n c ?s" and k: "k < nat n" by simp_all
  have len: "length ?done = k" by simp
  have rest: "replicate (nat n - k) Waiting = Waiting # replicate (nat n - Suc k) Waiting"
    using k by (cases "nat n - k") (auto simp: Suc_diff_Suc)
  let ?mid = "\<lparr>sem_value = nat c - 1, phases = ?done @ InFlight # replicate (nat n - Suc k) Waiting\<rparr>"
  have "step rnd env ?s (?s\<lparr>sem_value := sem_value ?s - 1, phases := (phases ?s)[k := InFlight]\<rparr>)"
    by (rule step.acquire) (use k assms(1) in \<open>simp_all add: served_def nth_append\<close>)
  moreover have "?s\<lparr>sem_value := sem_value ?s - 1, phases := (phases ?s)[k := InFlight]\<rparr> = ?mid"
    using len by (simp add: served_def rest list_update_append)
  ultimately have "reachable rnd env n c ?mid"
    using reach reachable.next_step by metis
  moreover have "step rnd env ?mid (?mid\<lparr>sem_value := sem_value ?mid + 1,
      phases := (phases ?mid)[k := Done (bounded_request rnd env (int k))]\<rparr>)"
    by (rule step.release) (simp_all add: nth_append)
  moreover have "?mid\<lparr>sem_value := sem_value ?mid + 1,
      phases := (phases ?mid)[k := Done (bounded_request rnd env (int k))]\<rparr>
      = served rnd env n c (Suc k)"
    using assms(1) len by (simp add: served_def list_update_append)
  ultimately show ?case
    using reachable.next_step by metis
qed

lemma those_map_Some_all: "those (map (\<lambda>x. Some (f x)) xs) = Some (map f xs)"
  by (induction xs) auto

lemma run_completes:
  assumes "0 < c"
  shows "\<exists>s. reachable rnd env n c s \<and> gathered s = Some (gather rnd env n)"
proof (intro exI conjI)
  show "reachable rnd env n c (served rnd env n c (nat n))"
    using served_reachable [OF assms] by simp
  have "map result_of (phases (served rnd env n c (nat n)))
      = map (\<lambda>i. Some (bounded_request rnd env (int i))) [0..<nat n]"
    by (simp add: served_def)
  then show "gathered (served rnd env n c (nat n)) = Some (gather rnd env n)"
    by (simp add: gathered_def gather_def upto_as_upt those_map_Some_all [of "\<lambda>i. bounded_request rnd env (int i)"] comp_def)
qed

lemma no_step_without_slot:
  assumes "reachable rnd env n 0 s"
  shows "s = sched_init n 0"
  using assms
proof (induction rule: reachable.induct)
  case start
  show ?case by simp
next
  case (next_step s s')
  from next_step.hyps(2) show ?case
  proof (cases rule: step.cases)
    case (acquire i)
    with next_step.IH show ?thesis by (simp add: sched_init_def)
  next
    case (release i)
    with next_step.IH show ?thesis by (simp add: sched_init_def)
  qed
qed

lemma run_hangs:
  assumes "reachable rnd env n 0 s" and "0 < n"
  shows "gathered s = None"
proof -
  from no_step_without_slot [OF assms(1)] have "s = sched_init n 0" .
  moreover from assms(2) obtain k where "nat n = Suc k" by (cases "nat n") auto
  ultimately show ?thesis by (simp add: gathered_def sched_init_def)
qed




section \<open>The summary of a run\<close>

lemma with_status_gather:
  "with_status st (gather rnd env n) =
     map (\<lambda>i. make_request rnd (env i) i)
       (filter (\<lambda>i. (if succeeded (env i) then ''success'' else ''error'') = st) [0..n - 1])"
proof -
  have "with_status st (map (bounded_request rnd env) xs) =
     map (\<lambda>i. make_request rnd (env i) i)
       (filter (\<lambda>i. (if succeeded (env i) then ''success'' else ''error'') = st) xs)" for xs
    by (induction xs)
      (auto simp: with_status_def List.map_filter_def bounded_request_def make_request_status)
  then show ?thesis by (simp add: gather_def)
qed

lemma successful_gather:
  "with_status ''success'' (gather rnd env n) =
     map (\<lambda>i. make_request rnd (env i) i) (successful_ids n env)"
proof -
  have "(\<lambda>i. (if succeeded (env i) then ''success'' else ''error'') = ''success'')
      = (\<lambda>i. succeeded (env i))" by auto
  then show ?thesis by (simp add: with_status_gather successful_ids_def)
qed

lemma failed_gather:
  "with_status ''error'' (gather rnd env n) =
     map (\<lambda>i. make_request rnd (env i) i) (failed_ids n env)"
proof -
  have "(\<lambda>i. (if succeeded (env i) then ''success'' else ''error'') = ''error'')
      = (\<lambda>i. \<not> succeeded (env i))" by auto
  then show ?thesis by (simp add: with_status_gather failed_ids_def)
qed

lemma latencies_of_successful:
  assumes "\<forall>i \<in> set ids. succeeded (env i)"
  shows "map_result (\<lambda>r. bind_result (dict_item r ''latency_ms'') as_float)
           (map (\<lambda>i. make_request rnd (env i) i) ids)
       = Inr (map (\<lambda>i. elapsed_ms rnd (t_start (env i)) (t_end (env i))) ids)"
  using assms
  by (induction ids) (simp_all add: make_request_succeeded dict_item_def bind_result_def)

lemma tokens_of_successful:
  assumes "\<forall>i \<in> set ids. succeeded (env i)"
  shows "map_result (\<lambda>r. bind_result (dict_item r ''tokens_generated'') as_int)
           (map (\<lambda>i. make_request rnd (env i) i) ids)
       = Inr (map (\<lambda>i. int (word_count (content_of (env i)))) ids)"
  using assms
  by (induction ids) (simp_all add: make_request_succeeded dict_item_def bind_result_def)

lemma process_results_gather:
  "process_results rnd n c (gather rnd env n) t0 t1 =
     (if successful_ids n env \<noteq> [] then
        bind_result (int_truediv rnd (int (length (successful_ids n env))) n) (\<lambda>success_rate.
        bind_result (fdiv rnd (of_nat (length (successful_ids n env))) (fsub rnd t1 t0))
          (\<lambda>throughput_rps.
        bind_result (latency_stats rnd (successful_latencies rnd n env)) (\<lambda>latency_block.
        bind_result (tokens_stats rnd (successful_tokens n env)) (\<lambda>tokens_block.
        Inr [(''total_requests'', PInt n),
             (''successful_requests'', PInt (int (length (successful_ids n env)))),
             (''failed_requests'', PInt (int (length (failed_ids n env)))),
             (''success_rate'', PFloat success_rate),
             (''total_time_seconds'', PFloat (fsub rnd t1 t0)),
             (''throughput_rps'', PFloat throughput_rps),
             (''latency_stats'', PDict latency_block),
             (''tokens_stats'', PDict tokens_block),
             (''concurrency'', PInt c),
             (''configuration'', PStr ''optimized-vllm'')]))))
      else Inr (zero_summary n (int (length (failed_ids n env)))))"
proof -
  have all: "\<forall>i \<in> set (successful_ids n env). succeeded (env i)"
    by (simp add: successful_ids_def)
  show ?thesis
    unfolding process_results_def Let_def successful_gather failed_gather
      latencies_of_successful [OF all] tokens_of_successful [OF all]
    by (simp add: bind_result_def successful_latencies_def successful_tokens_def zero_summary_def)
qed

lemma successful_ids_bound: "successful_ids n env \<noteq> [] \<Longrightarrow> 0 < n"
  by (cases "0 < n") (auto simp: successful_ids_def)

lemma ids_split: "length (successful_ids n env) + length (failed_ids n env) = nat n"
proof -
  have "length (filter P xs) + length (filter (\<lambda>x. \<not> P x) xs) = length xs" for P and xs :: "int list"
    by (induction xs) auto
  then show ?thesis by (simp add: successful_ids_def failed_ids_def)
qed




lemma latency_stats_one:
  assumes "length L = 1"
  shows "latency_stats rnd L = Inl StatisticsError"
proof -
  from assms obtain x where L: "L = [x]" by (cases L) auto
  show ?thesis
    by (simp add: L latency_stats_def statistics_mean_def statistics_median_def quantiles_def bind_result_def)
qed


lemma run_load_test_valid:
  assumes "0 < c"
  shows "run_load_test rnd n c env t0 t1 = Some (process_results rnd n c (gather rnd env n) t0 t1)"
  using assms by (simp add: run_load_test_def)








lemma mixed_two_ids: "successful_ids 2 mixed_env = [0]"
  by code_simp







text \<open>
  C9. A run in which exactly one request succeeds returns no summary:
  \<^verbatim>\<open>statistics.quantiles\<close> raises \<^verbatim>\<open>StatisticsError\<close> on the single latency. Only when
  the measured total time is zero the division for the throughput, which comes first,
  raises \<^verbatim>\<open>ZeroDivisionError\<close> instead.
\<close>

theorem single_success_raises:
  assumes "0 < concurrency" and "length (successful_ids num_requests env) = 1"
  shows "run_load_test rnd num_requests concurrency env start_time end_time =
     Some (Inl (if rnd (end_time - start_time) = 0 then ZeroDivisionError else StatisticsError))"
proof -
  from assms(2) have ne: "successful_ids num_requests env \<noteq> []" by auto
  from successful_ids_bound [OF ne] have n: "num_requests \<noteq> 0" by simp
  from assms(2) have "length (successful_latencies rnd num_requests env) = 1"
    by (simp add: successful_latencies_def)
  from latency_stats_one [OF this]
  show ?thesis
    by (simp add: run_load_test_valid [OF assms(1)] process_results_gather ne n
        int_truediv_def fdiv_def fsub_def bind_result_def)
qed

theorem single_success_raises_witness:
  "(0::int) < 2 \<and> length (successful_ids 2 mixed_env) = 1
   \<and> run_load_test exact 2 2 mixed_env 0 1 = Some (Inl StatisticsError)
   \<and> run_load_test exact 2 2 mixed_env 1 1 = Some (Inl ZeroDivisionError)"
proof -
  have c: "(0::int) < 2" by simp
  have l: "length (successful_ids 2 mixed_env) = 1" by (simp add: mixed_two_ids)
  from single_success_raises [OF c l, of exact 0 1] single_success_raises [OF c l, of exact 1 1] l
  show ?thesis by (simp add: exact_def)
qed



text \<open>
  C1. Five requests, all answered with status 500: the summary has no entry
  \<^verbatim>\<open>throughput_rps\<close> at all, where a throughput of 0 is expected. It has no latency
  and no token statistics, and carries the flag \<^verbatim>\<open>error\<close>.
\<close>

theorem zero_success_summary_lacks_throughput:
  "run_load_test exact 5 5 (\<lambda>i. refused) 0 1 = Some (Inr (zero_summary 5 5))
   \<and> map_of (zero_summary 5 5) ''throughput_rps'' = None
   \<and> map_of (zero_summary 5 5) ''latency_stats'' = None
   \<and> map_of (zero_summary 5 5) ''tokens_stats'' = None
   \<and> map_of (zero_summary 5 5) ''error'' = Some (PStr ''No successful requests'')"
proof -
  have "run_load_test exact 5 5 (\<lambda>i. refused) 0 1 = Some (Inr (zero_summary 5 5))"
    by code_simp
  then show ?thesis by (simp add: zero_summary_def)
qed

section \<open>Failures of a request become outcomes\<close>



section \<open>Rounding to double precision\<close>

text \<open>
  \<open>binary64 x\<close> has a significand of 53 bits and lies within half a unit in the last
  place of \<open>x\<close>, so the relative error of one operation is at most \<open>2 ^ 53\<close>-th.
\<close>

lemma ilog2_bounds:
  assumes "0 < x"
  shows "2 powi (ilog2 x) \<le> x \<and> x < 2 powi (ilog2 x + 1)"
proof -
  obtain p q where pq: "quotient_of x = (p, q)" by (cases "quotient_of x")
  then have q: "0 < q" and x: "x = of_int p / of_int q"
    using quotient_of_denom_pos quotient_of_div by auto
  with assms have p: "0 < p"
    by (simp add: zero_less_divide_iff)
  define a where "a = bitlen p"
  define b where "b = bitlen q"
  from bitlen_bounds [OF p] have pa: "2 ^ nat (a - 1) \<le> p" "p < 2 ^ nat a" by (simp_all add: a_def)
  from bitlen_bounds [OF q] have qb: "2 ^ nat (b - 1) \<le> q" "q < 2 ^ nat b" by (simp_all add: b_def)
  have a1: "1 \<le> a" using p by (simp add: a_def bitlen_alt_def)
  have b1: "1 \<le> b" using q by (simp add: b_def bitlen_alt_def)
  have A: "(2::rat) powi a = 2 ^ nat a" "(2::rat) powi (a - 1) = 2 ^ nat (a - 1)"
    using a1 by (simp_all add: power_int_def)
  have B: "(2::rat) powi b = 2 ^ nat b" "(2::rat) powi (b - 1) = 2 ^ nat (b - 1)"
    using b1 by (simp_all add: power_int_def)
  have pr: "(of_int p :: rat) < 2 ^ nat a" "(2::rat) ^ nat (a - 1) \<le> of_int p"
    using pa by (metis of_int_less_iff of_int_numeral of_int_power, metis of_int_le_iff of_int_numeral of_int_power)
  have qr: "(of_int q :: rat) < 2 ^ nat b" "(2::rat) ^ nat (b - 1) \<le> of_int q"
    using qb by (metis of_int_less_iff of_int_numeral of_int_power, metis of_int_le_iff of_int_numeral of_int_power)
  have "(of_int p :: rat) / of_int q < 2 ^ nat a / 2 ^ nat (b - 1)"
    using p pr(1) qr(2) by (intro frac_less) simp_all
  also have "\<dots> = 2 powi (a - (b - 1))"
    by (simp add: power_int_diff A B)
  finally have up: "x < 2 powi (a - b + 1)"
    by (simp add: x algebra_simps)
  have "(2::rat) ^ nat (a - 1) / 2 ^ nat b \<le> of_int p / of_int q"
    using p q pr(2) qr(1) by (intro frac_le) simp_all
  moreover have "(2::rat) ^ nat (a - 1) / 2 ^ nat b = 2 powi ((a - 1) - b)"
    by (simp add: power_int_diff A B)
  ultimately have low: "2 powi (a - b - 1) \<le> x"
    by (simp add: x algebra_simps)
  show ?thesis
    using up low pq by (auto simp: ilog2_def Let_def a_def b_def not_le)
qed

lemma round_half_even_error: "\<bar>of_int (round_half_even y) - y\<bar> \<le> 1 / 2"
proof -
  have "of_int \<lfloor>y\<rfloor> \<le> y" "y < of_int \<lfloor>y\<rfloor> + 1" by linarith+
  then show ?thesis
    by (auto simp: round_half_even_def Let_def abs_le_iff)
qed

lemma round_half_even_mono: "of_int k \<le> y \<Longrightarrow> k \<le> round_half_even y"
proof -
  assume "of_int k \<le> y"
  then have "k \<le> \<lfloor>y\<rfloor>" by (simp add: le_floor_iff)
  then show ?thesis by (auto simp: round_half_even_def Let_def)
qed

lemma round_half_even_upper: "y \<le> of_int k \<Longrightarrow> round_half_even y \<le> k"
proof -
  assume a: "y \<le> of_int k"
  have f: "of_int \<lfloor>y\<rfloor> \<le> y" by linarith
  show ?thesis
  proof (cases "y = of_int k")
    case True
    then show ?thesis by (simp add: round_half_even_def Let_def)
  next
    case False
    with a have "y < of_int k" by simp
    then have "\<lfloor>y\<rfloor> < k" by (simp add: floor_less_iff)
    then show ?thesis by (auto simp: round_half_even_def Let_def)
  qed
qed

lemma binary64_nearest:
  assumes "x \<noteq> 0"
  shows "\<exists>m e. binary64 x = sgn x * of_int m * 2 powi e
     \<and> 2 ^ 52 \<le> m \<and> m \<le> 2 ^ 53
     \<and> \<bar>binary64 x - x\<bar> \<le> 2 powi e / 2
     \<and> 2 powi e * 2 ^ 52 \<le> \<bar>x\<bar>"
proof -
  define e where "e = ilog2 \<bar>x\<bar> - 52"
  define y where "y = \<bar>x\<bar> / 2 powi e"
  define m where "m = round_half_even y"
  have s: "(0::rat) < 2 powi e" by simp
  from assms have ax: "0 < \<bar>x\<bar>" by simp
  have e52: "e + 52 = ilog2 \<bar>x\<bar>" and e53: "e + 53 = ilog2 \<bar>x\<bar> + 1"
    by (simp_all add: e_def)
  from ilog2_bounds [OF ax] have lo: "2 powi (e + 52) \<le> \<bar>x\<bar>" and hi: "\<bar>x\<bar> < 2 powi (e + 53)"
    unfolding e52 e53 by blast+
  have split52: "(2::rat) powi (e + 52) = 2 powi e * 2 ^ 52"
    by (simp add: power_int_add)
  have split53: "(2::rat) powi (e + 53) = 2 powi e * 2 ^ 53"
    by (simp add: power_int_add)
  from lo s have ylo: "2 ^ 52 \<le> y"
    unfolding y_def split52 by (simp add: pos_le_divide_eq mult.commute)
  from hi s have yhi: "y < 2 ^ 53"
    unfolding y_def split53 by (simp add: pos_divide_less_eq mult.commute)
  have b: "binary64 x = sgn x * of_int m * 2 powi e"
    using assms by (simp add: binary64_def Let_def e_def y_def m_def)
  have m1: "2 ^ 52 \<le> m"
    unfolding m_def using ylo by (intro round_half_even_mono) simp
  have m2: "m \<le> 2 ^ 53"
    unfolding m_def using yhi by (intro round_half_even_upper) simp
  have xs: "x = sgn x * (y * 2 powi e)"
    using s by (simp add: y_def sgn_mult_abs)
  have "binary64 x - x = sgn x * ((of_int m - y) * 2 powi e)"
    by (subst xs, subst b) (simp add: algebra_simps)
  then have "\<bar>binary64 x - x\<bar> = \<bar>of_int m - y\<bar> * 2 powi e"
    using assms by (simp add: abs_mult abs_sgn_eq)
  also have "\<dots> \<le> (1 / 2) * 2 powi e"
    using round_half_even_error [of y] by (intro mult_right_mono) (simp_all add: m_def)
  finally have err: "\<bar>binary64 x - x\<bar> \<le> 2 powi e / 2" by simp
  from b m1 m2 err lo split52 show ?thesis by metis
qed

lemma binary64_relative_error: "\<bar>binary64 x - x\<bar> \<le> \<bar>x\<bar> / 2 ^ 53"
proof (cases "x = 0")
  case True
  then show ?thesis by (simp add: binary64_def)
next
  case False
  from binary64_nearest [OF False] obtain e where
    "\<bar>binary64 x - x\<bar> \<le> 2 powi e / 2" and "2 powi e * 2 ^ 52 \<le> \<bar>x\<bar>" by blast
  then show ?thesis by (simp add: field_simps)
qed

section \<open>The order of the percentiles\<close>


















end
